theory Spec2Isabelle
  imports Main "HOL-Library.Sublist"
begin

section \<open>Manifest values\<close>

text \<open>
  A manifest is the value produced by parsing a YAML document: null, booleans,
  integers, strings, sequences and mappings.  A mapping keeps its items in insertion
  order, as a Python dict does; its keys are strings and pairwise distinct.
  A Python string is a list of characters, each a code point below 256.
\<close>

datatype yval =
    YNull
  | YBool bool
  | YInt int
  | YStr string
  | YList "yval list"
  | YDict "(string \<times> yval) list"

type_synonym ydict = "(string \<times> yval) list"

text \<open>
  Exceptions, as values.  \<open>TemplateError msg name\<close> carries the message and the
  \<^verbatim>\<open>template_name\<close> (\<open>YNull\<close> when none is given), \<open>ConversionError context e\<close>
  the context and the exception it wraps.  \<open>LoaderError\<close> and \<open>RenderError\<close> stand for
  the exceptions of the manifest loader and of the template engine.
\<close>

datatype error =
    AttributeError
  | TypeError
  | KeyError
  | IndexError
  | ValueError
  | StopIteration
  | RuntimeError
  | RecursionError
  | LoaderError string
  | RenderError string
  | TemplateError string yval
  | ConversionError string error

text \<open>Python truthiness: \<^verbatim>\<open>if not x\<close>.\<close>

fun truthy :: "yval \<Rightarrow> bool" where
  "truthy YNull = False"
| "truthy (YBool b) = b"
| "truthy (YInt i) = (i \<noteq> 0)"
| "truthy (YStr s) = (s \<noteq> [])"
| "truthy (YList xs) = (xs \<noteq> [])"
| "truthy (YDict kvs) = (kvs \<noteq> [])"

text \<open>\<^verbatim>\<open>d.get(k, default)\<close> and \<^verbatim>\<open>d[k] = v\<close> on a dict.\<close>

definition py_get :: "ydict \<Rightarrow> string \<Rightarrow> yval \<Rightarrow> yval" where
  "py_get d k dflt = (case map_of d k of None \<Rightarrow> dflt | Some v \<Rightarrow> v)"

fun dict_set :: "ydict \<Rightarrow> string \<Rightarrow> yval \<Rightarrow> ydict" where
  "dict_set [] k v = [(k, v)]"
| "dict_set ((k', v') # rest) k v =
     (if k' = k then (k, v) # rest else (k', v') # dict_set rest k v)"

section \<open>String operations\<close>

text \<open>Whitespace as \<^verbatim>\<open>str.strip()\<close> and the pattern \<^verbatim>\<open>\s\<close> see it.\<close>

definition is_space :: "char \<Rightarrow> bool" where
  "is_space c = ((of_char c :: nat) \<in> {9, 10, 11, 12, 13, 28, 29, 30, 31, 32, 133, 160})"

definition py_strip :: "string \<Rightarrow> string" where
  "py_strip s = rev (dropWhile is_space (rev (dropWhile is_space s)))"

text \<open>\<^verbatim>\<open>re.sub(r'\s+', ' ', css)\<close>: every maximal run of whitespace becomes one space.\<close>

function collapse_ws :: "string \<Rightarrow> string" where
  "collapse_ws [] = []"
| "collapse_ws (c # cs) =
     (if is_space c then CHR '' '' # collapse_ws (dropWhile is_space cs)
      else c # collapse_ws cs)"
  by pat_completeness auto
termination
  by (relation "measure length") (auto simp: length_dropWhile_le less_Suc_eq_le)

definition endswith_semicolon :: "string \<Rightarrow> bool" where
  "endswith_semicolon s = (s \<noteq> [] \<and> last s = CHR '';'')"

section \<open>StyleProcessor\<close>

text \<open>
  \<^verbatim>\<open>_process_single_style\<close>: strip, collapse whitespace, ensure the final
  semicolon.  \<^verbatim>\<open>_validate_css_properties\<close> only logs.  A value that is not a
  string has no \<^verbatim>\<open>strip\<close>.
\<close>

definition clean_css :: "string \<Rightarrow> string" where
  "clean_css s =
     (let css = py_strip s;
          css = collapse_ws css
      in if css \<noteq> [] \<and> \<not> endswith_semicolon css then css @ '';'' else css)"

fun process_single_style :: "yval \<Rightarrow> error + string" where
  "process_single_style (YStr s) = Inr (clean_css s)"
| "process_single_style _ = Inl AttributeError"

fun process_style_items :: "ydict \<Rightarrow> ydict \<Rightarrow> error + ydict" where
  "process_style_items processed [] = Inr processed"
| "process_style_items processed ((name, css) # rest) =
     (case process_single_style css of
        Inl e \<Rightarrow> Inl e
      | Inr s \<Rightarrow> process_style_items (dict_set processed name (YStr s)) rest)"

definition process_styles :: "ydict \<Rightarrow> error + ydict" where
  "process_styles manifest =
     (let styles = py_get manifest ''styles'' (YDict [])
      in if \<not> truthy styles then Inr manifest
         else case styles of
                YDict items \<Rightarrow>
                  (case process_style_items [] items of
                     Inl e \<Rightarrow> Inl e
                   | Inr processed \<Rightarrow> Inr (dict_set manifest ''styles'' (YDict processed)))
              | _ \<Rightarrow> Inl AttributeError)"

text \<open>Auxiliary predicates for the proofs about style normalisation.\<close>

definition stripped :: "string \<Rightarrow> bool" where
  "stripped s = (s = [] \<or> (\<not> is_space (hd s) \<and> \<not> is_space (last s)))"

definition clean_items :: "ydict \<Rightarrow> bool" where
  "clean_items ps = (distinct (map fst ps) \<and> (\<forall>(k, v) \<in> set ps. \<exists>s. v = YStr s \<and> clean_css s = s))"


section \<open>TemplateProcessor: template slots\<close>

text \<open>
  Python's \<^verbatim>\<open>==\<close> on parsed values: a boolean equals the integer 0 or 1, sequences are
  equal item by item, mappings when they have the same keys with equal values.
\<close>

fun py_eq :: "yval \<Rightarrow> yval \<Rightarrow> bool"
  and py_eq_list :: "yval list \<Rightarrow> yval list \<Rightarrow> bool"
  and py_eq_items :: "ydict \<Rightarrow> ydict \<Rightarrow> bool" where
  "py_eq YNull YNull = True"
| "py_eq (YBool a) (YBool b) = (a = b)"
| "py_eq (YBool a) (YInt j) = ((if a then 1 else 0) = j)"
| "py_eq (YInt i) (YBool b) = (i = (if b then 1 else 0))"
| "py_eq (YInt i) (YInt j) = (i = j)"
| "py_eq (YStr s) (YStr t) = (s = t)"
| "py_eq (YList xs) (YList ys) = py_eq_list xs ys"
| "py_eq (YDict a) (YDict b) = (length a = length b \<and> py_eq_items a b)"
| "py_eq _ _ = False"
| "py_eq_list [] [] = True"
| "py_eq_list (x # xs) (y # ys) = (py_eq x y \<and> py_eq_list xs ys)"
| "py_eq_list _ _ = False"
| "py_eq_items [] b = True"
| "py_eq_items ((k, v) # rest) b =
     (case map_of b k of None \<Rightarrow> False | Some w \<Rightarrow> py_eq v w \<and> py_eq_items rest b)"

text \<open>
  \<^verbatim>\<open>item in container\<close>.  A dict hashes the item first, which a list or a dict does
  not allow; its keys are strings, so no other scalar is among them.  A list compares
  the item with its elements, a string looks for a substring, and nothing else is a
  container.
\<close>

fun py_in :: "yval \<Rightarrow> yval \<Rightarrow> error + bool" where
  "py_in (YDict d) (YStr s) = Inr (map_of d s \<noteq> None)"
| "py_in (YDict d) (YList _) = Inl TypeError"
| "py_in (YDict d) (YDict _) = Inl TypeError"
| "py_in (YDict d) _ = Inr False"
| "py_in (YList xs) item = Inr (list_ex (\<lambda>x. py_eq x item) xs)"
| "py_in (YStr s) (YStr t) = Inr (sublist t s)"
| "py_in (YStr s) _ = Inl TypeError"
| "py_in _ _ = Inl TypeError"

text \<open>\<^verbatim>\<open>xs[i]\<close> on a sequence: a negative index counts from the end.\<close>

definition py_index :: "'a list \<Rightarrow> int \<Rightarrow> error + 'a" where
  "py_index xs i =
     (if 0 \<le> i \<and> i < int (length xs) then Inr (xs ! nat i)
      else if i < 0 \<and> - int (length xs) \<le> i then Inr (xs ! nat (int (length xs) + i))
      else Inl IndexError)"

text \<open>\<^verbatim>\<open>container[key]\<close>; a boolean used as an index is the integer 0 or 1.\<close>

fun py_getitem :: "yval \<Rightarrow> yval \<Rightarrow> error + yval" where
  "py_getitem (YDict d) (YStr s) = (case map_of d s of None \<Rightarrow> Inl KeyError | Some v \<Rightarrow> Inr v)"
| "py_getitem (YDict d) (YList _) = Inl TypeError"
| "py_getitem (YDict d) (YDict _) = Inl TypeError"
| "py_getitem (YDict d) _ = Inl KeyError"
| "py_getitem (YList xs) (YInt i) = py_index xs i"
| "py_getitem (YList xs) (YBool b) = py_index xs (if b then 1 else 0)"
| "py_getitem (YList xs) _ = Inl TypeError"
| "py_getitem (YStr s) (YInt i) = (case py_index s i of Inl e \<Rightarrow> Inl e | Inr c \<Rightarrow> Inr (YStr [c]))"
| "py_getitem (YStr s) (YBool b) =
     (case py_index s (if b then 1 else 0) of Inl e \<Rightarrow> Inl e | Inr c \<Rightarrow> Inr (YStr [c]))"
| "py_getitem (YStr s) _ = Inl TypeError"
| "py_getitem _ _ = Inl TypeError"





section \<open>TemplateProcessor: variable substitution\<close>

text \<open>
  A list comprehension or dict comprehension evaluates its elements from left to
  right; the first exception ends it.
\<close>

fun sequence_sum :: "('e + 'a) list \<Rightarrow> 'e + 'a list" where
  "sequence_sum [] = Inr []"
| "sequence_sum (Inl e # _) = Inl e"
| "sequence_sum (Inr x # rest) =
     (case sequence_sum rest of Inl e \<Rightarrow> Inl e | Inr xs \<Rightarrow> Inr (x # xs))"





section \<open>ManifestProcessor: template inheritance\<close>

text \<open>\<^verbatim>\<open>x.get(k, default)\<close> on any value: only a dict has the method.\<close>

fun py_dict_get :: "yval \<Rightarrow> string \<Rightarrow> yval \<Rightarrow> error + yval" where
  "py_dict_get (YDict d) k dflt = Inr (py_get d k dflt)"
| "py_dict_get _ k dflt = Inl AttributeError"



text \<open>
  The event loop that \<^verbatim>\<open>asyncio.get_event_loop()\<close> finds: an idle one, a running one, or
  none (the call raises \<^verbatim>\<open>RuntimeError\<close>, as it does once \<^verbatim>\<open>asyncio.run\<close> has cleared
  the current loop).  \<^verbatim>\<open>RecursionError\<close> is a \<^verbatim>\<open>RuntimeError\<close>.
\<close>

datatype event_loop = LoopIdle | LoopRunning | NoLoop

fun is_runtime_error :: "error \<Rightarrow> bool" where
  "is_runtime_error RuntimeError = True"
| "is_runtime_error RecursionError = True"
| "is_runtime_error _ = False"

text \<open>
  The loader is a field of the processor and a parameter here: \<open>load_manifest ref s\<close> is
  \<^verbatim>\<open>self.loader.load_manifest(ref)\<close> run to its end and followed by \<^verbatim>\<open>.content\<close>; it
  returns the manifest or the exception, and the new state of the loader.  The world
  is the event loop and the state of the loader.

  \<^verbatim>\<open>asyncio.run\<close> refuses to start under a running loop; otherwise it runs the loader
  in a loop of its own and leaves no current loop behind.
\<close>

definition asyncio_run ::
  "(yval \<Rightarrow> 's \<Rightarrow> (error + yval) \<times> 's) \<Rightarrow> yval \<Rightarrow> event_loop \<times> 's \<Rightarrow>
   (error + yval) \<times> (event_loop \<times> 's)" where
  "asyncio_run load_manifest extends world =
     (case fst world of
        LoopRunning \<Rightarrow> (Inl RuntimeError, world)
      | _ \<Rightarrow>
          (case load_manifest extends (snd world) of
             (result, s) \<Rightarrow> (result, (NoLoop, s))))"

text \<open>
  The inner \<^verbatim>\<open>try\<close> of \<^verbatim>\<open>_process_inheritance\<close>.  With an idle loop the loader is
  run by \<^verbatim>\<open>run_until_complete\<close>; a \<^verbatim>\<open>RuntimeError\<close> from it, from a running loop or
  from the absence of a loop is caught by \<^verbatim>\<open>except RuntimeError\<close>, which calls the
  loader again under \<^verbatim>\<open>asyncio.run\<close>.
\<close>

definition load_parent ::
  "(yval \<Rightarrow> 's \<Rightarrow> (error + yval) \<times> 's) \<Rightarrow> yval \<Rightarrow> event_loop \<times> 's \<Rightarrow>
   (error + yval) \<times> (event_loop \<times> 's)" where
  "load_parent load_manifest extends world =
     (case fst world of
        LoopIdle \<Rightarrow>
          (case load_manifest extends (snd world) of
             (Inr parent_manifest, s) \<Rightarrow> (Inr parent_manifest, (LoopIdle, s))
           | (Inl e, s) \<Rightarrow>
               if is_runtime_error e then asyncio_run load_manifest extends (LoopIdle, s)
               else (Inl e, (LoopIdle, s)))
      | _ \<Rightarrow> asyncio_run load_manifest extends world)"



text \<open>
  For the examples: a loader over a fixed table of manifests, which fails on a
  reference that is not in the table and counts its calls in its state; a loader that
  raises \<^verbatim>\<open>RuntimeError\<close> at its first call; and a template processor that returns
  the resolved parent.
\<close>

fun table_lookup :: "(string \<times> yval) list \<Rightarrow> yval \<Rightarrow> error + yval" where
  "table_lookup table (YStr ref) =
     (case map_of table ref of None \<Rightarrow> Inl (LoaderError ref) | Some m \<Rightarrow> Inr m)"
| "table_lookup table _ = Inl TypeError"


definition flaky_loader :: "(string \<times> yval) list \<Rightarrow> yval \<Rightarrow> nat \<Rightarrow> (error + yval) \<times> nat" where
  "flaky_loader table ref calls =
     (if calls = 0 then Inl RuntimeError else table_lookup table ref, Suc calls)"




definition manifest_base :: yval where
  "manifest_base = YDict [(''metadata'', YDict [(''title'', YStr ''Base'')])]"


definition manifest_child :: yval where
  "manifest_child = YDict [(''metadata'', YDict [(''title'', YStr ''C''), (''extends'', YStr ''base.yaml'')])]"

section \<open>ManifestValidator\<close>

text \<open>
  The pattern \<^verbatim>\<open>^[a-zA-Z_][a-zA-Z0-9_-]*$\<close>, used with \<^verbatim>\<open>re.match\<close> on a slot name and
  by the schema on the names of styles and slots.  \<^verbatim>\<open>$\<close> matches at the end of the
  string and also before a newline that ends it.
\<close>

definition is_alpha :: "char \<Rightarrow> bool" where
  "is_alpha c = (let n = (of_char c :: nat) in (65 \<le> n \<and> n \<le> 90) \<or> (97 \<le> n \<and> n \<le> 122))"

definition is_digit :: "char \<Rightarrow> bool" where
  "is_digit c = (let n = (of_char c :: nat) in 48 \<le> n \<and> n \<le> 57)"

definition chop_newline :: "string \<Rightarrow> string" where
  "chop_newline s = (if s \<noteq> [] \<and> last s = CHR 0x0A then butlast s else s)"

definition match_identifier :: "string \<Rightarrow> bool" where
  "match_identifier s =
     (case chop_newline s of
        [] \<Rightarrow> False
      | c # cs \<Rightarrow>
          (is_alpha c \<or> c = CHR ''_'')
          \<and> list_all (\<lambda>x. is_alpha x \<or> is_digit x \<or> x = CHR ''_'' \<or> x = CHR ''-'') cs)"

text \<open>
  The default schema of \<^verbatim>\<open>_load_schema\<close>, read as \<^verbatim>\<open>jsonschema.validate\<close> reads it:
  \<^verbatim>\<open>type\<close> tests the shape of a value, \<^verbatim>\<open>required\<close> the presence of keys, and
  \<^verbatim>\<open>properties\<close>, \<^verbatim>\<open>patternProperties\<close> and \<^verbatim>\<open>items\<close> constrain only the members
  that are there.
\<close>

fun is_str :: "yval \<Rightarrow> bool" where
  "is_str (YStr s) = True"
| "is_str _ = False"

fun is_object :: "yval \<Rightarrow> bool" where
  "is_object (YDict d) = True"
| "is_object _ = False"

fun is_str_array :: "yval \<Rightarrow> bool" where
  "is_str_array (YList xs) = list_all is_str xs"
| "is_str_array _ = False"

definition member_ok :: "ydict \<Rightarrow> string \<Rightarrow> (yval \<Rightarrow> bool) \<Rightarrow> bool" where
  "member_ok d k ok = (case map_of d k of None \<Rightarrow> True | Some v \<Rightarrow> ok v)"

fun metadata_schema :: "yval \<Rightarrow> bool" where
  "metadata_schema (YDict md) =
     (member_ok md ''title'' is_str \<and> member_ok md ''description'' is_str
      \<and> member_ok md ''version'' is_str \<and> member_ok md ''extends'' is_str
      \<and> member_ok md ''template_type'' is_str \<and> map_of md ''title'' \<noteq> None)"
| "metadata_schema _ = False"

fun named_strings_schema :: "yval \<Rightarrow> bool" where
  "named_strings_schema (YDict d) = list_all (\<lambda>kv. match_identifier (fst kv) \<longrightarrow> is_str (snd kv)) d"
| "named_strings_schema _ = False"

fun imports_schema :: "yval \<Rightarrow> bool" where
  "imports_schema (YDict d) =
     (member_ok d ''manifests'' is_str_array \<and> member_ok d ''modules'' is_str_array
      \<and> member_ok d ''templates'' is_str_array \<and> member_ok d ''scripts'' is_str_array
      \<and> member_ok d ''styles'' is_str_array \<and> member_ok d ''fonts'' is_str_array)"
| "imports_schema _ = False"

definition schema_valid :: "ydict \<Rightarrow> bool" where
  "schema_valid manifest =
     (member_ok manifest ''metadata'' metadata_schema
      \<and> member_ok manifest ''styles'' named_strings_schema
      \<and> member_ok manifest ''structure'' is_object
      \<and> member_ok manifest ''imports'' imports_schema
      \<and> member_ok manifest ''interactions'' is_object
      \<and> member_ok manifest ''template_slots'' named_strings_schema
      \<and> map_of manifest ''metadata'' \<noteq> None \<and> map_of manifest ''structure'' \<noteq> None)"

text \<open>
  The validator's methods append to two lists, \<^verbatim>\<open>errors\<close> and \<^verbatim>\<open>warnings\<close>.  No
  warning changes the errors or the control flow, and the model follows the list of
  errors only.
\<close>

definition extends_message :: string where
  "extends_message = ''Template '' @ [CHR 0x27] @ ''extends'' @ [CHR 0x27] @ '' must be a non-empty string''"

definition validate_metadata :: "ydict \<Rightarrow> string list \<Rightarrow> error + string list" where
  "validate_metadata manifest errors =
     (let metadata = py_get manifest ''metadata'' (YDict [])
      in case py_dict_get metadata ''title'' YNull of
           Inl e \<Rightarrow> Inl e
         | Inr title \<Rightarrow>
             (let errors = (if \<not> truthy title
                            then errors @ [''Metadata must include a title'']
                            else errors)
              in case py_in metadata (YStr ''extends'') of
                   Inl e \<Rightarrow> Inl e
                 | Inr False \<Rightarrow> Inr errors
                 | Inr True \<Rightarrow>
                     (case py_getitem metadata (YStr ''extends'') of
                        Inl e \<Rightarrow> Inl e
                      | Inr (YStr s) \<Rightarrow>
                          if py_strip s = []
                          then Inr (errors @ [extends_message])
                          else Inr errors
                      | Inr _ \<Rightarrow>
                          Inr (errors @ [extends_message]))))"

fun validate_style_items :: "ydict \<Rightarrow> string list \<Rightarrow> string list" where
  "validate_style_items [] errors = errors"
| "validate_style_items ((style_name, YStr s) # rest) errors = validate_style_items rest errors"
| "validate_style_items ((style_name, style_value) # rest) errors =
     validate_style_items rest (errors @ [''Style '' @ [CHR 0x27] @ style_name @ [CHR 0x27] @ '' must be a string''])"

definition validate_styles :: "ydict \<Rightarrow> string list \<Rightarrow> string list" where
  "validate_styles manifest errors =
     (case py_get manifest ''styles'' (YDict []) of
        YDict styles \<Rightarrow> validate_style_items styles errors
      | _ \<Rightarrow> errors @ [''Styles must be an object/dictionary''])"

definition validate_structure :: "ydict \<Rightarrow> string list \<Rightarrow> string list" where
  "validate_structure manifest errors =
     (if \<not> truthy (py_get manifest ''structure'' YNull)
      then errors @ [''Structure is required'']
      else errors)"

fun validate_slot_names :: "string list \<Rightarrow> string list \<Rightarrow> string list" where
  "validate_slot_names [] errors = errors"
| "validate_slot_names (slot_name # rest) errors =
     validate_slot_names rest
       (if \<not> match_identifier slot_name
        then errors @ [''Invalid template slot name: '' @ [CHR 0x27] @ slot_name @ [CHR 0x27]] else errors)"

definition validate_template_inheritance :: "ydict \<Rightarrow> string list \<Rightarrow> error + string list" where
  "validate_template_inheritance manifest errors =
     (let metadata = py_get manifest ''metadata'' (YDict []);
          template_slots = py_get manifest ''template_slots'' (YDict [])
      in case py_in metadata (YStr ''extends'') of
           Inl e \<Rightarrow> Inl e
         | Inr _ \<Rightarrow>
             (case template_slots of
                YDict slots \<Rightarrow> Inr (validate_slot_names (map fst slots) errors)
              | _ \<Rightarrow> Inl AttributeError))"

text \<open>
  \<^verbatim>\<open>validate\<close>, the list of errors it returns.  The text that
  \<^verbatim>\<open>jsonschema\<close> gives for a violation of the schema is not modelled.
\<close>

definition validate :: "ydict \<Rightarrow> error + string list" where
  "validate manifest =
     (let errors = (if schema_valid manifest then [] else [''Schema validation failed''])
      in case validate_metadata manifest errors of
           Inl e \<Rightarrow> Inl e
         | Inr errors \<Rightarrow>
             (let errors = validate_styles manifest errors;
                  errors = validate_structure manifest errors
              in validate_template_inheritance manifest errors))"

text \<open>The conditions the custom rules of the validator add to the schema.\<close>

definition title_nonempty :: "ydict \<Rightarrow> bool" where
  "title_nonempty manifest =
     (case py_dict_get (py_get manifest ''metadata'' (YDict [])) ''title'' YNull of
        Inl e \<Rightarrow> False | Inr title \<Rightarrow> truthy title)"

definition structure_nonempty :: "ydict \<Rightarrow> bool" where
  "structure_nonempty manifest = truthy (py_get manifest ''structure'' YNull)"

definition extends_nonblank :: "ydict \<Rightarrow> bool" where
  "extends_nonblank manifest =
     (case py_get manifest ''metadata'' (YDict []) of
        YDict metadata \<Rightarrow>
          (case map_of metadata ''extends'' of
             None \<Rightarrow> True
           | Some (YStr s) \<Rightarrow> py_strip s \<noteq> []
           | Some _ \<Rightarrow> False)
      | _ \<Rightarrow> True)"

definition style_values_strings :: "ydict \<Rightarrow> bool" where
  "style_values_strings manifest =
     (case py_get manifest ''styles'' (YDict []) of
        YDict styles \<Rightarrow> list_all (\<lambda>kv. is_str (snd kv)) styles | _ \<Rightarrow> False)"

definition slot_names_identifiers :: "ydict \<Rightarrow> bool" where
  "slot_names_identifiers manifest =
     (case py_get manifest ''template_slots'' (YDict []) of
        YDict slots \<Rightarrow> list_all (\<lambda>kv. match_identifier (fst kv)) slots | _ \<Rightarrow> False)"

text \<open>Two manifests for the examples.\<close>

definition manifest_box :: ydict where
  "manifest_box =
     [(''metadata'', YDict [(''title'', YStr ''T'')]),
      (''styles'', YDict [(''box'', YStr ''color: red'')]),
      (''structure'', YDict [(''div'', YDict [(''text'', YStr ''Hi''), (''style'', YStr ''box'')])])]"

definition manifest_blank_extends :: ydict where
  "manifest_blank_extends =
     [(''metadata'', YDict [(''title'', YStr ''T''), (''extends'', YStr '' '')]),
      (''structure'', YDict [(''div'', YStr ''x'')])]"

section \<open>Strings of the converter\<close>

text \<open>\<^verbatim>\<open>s.split(c)\<close> and \<^verbatim>\<open>sep.join(parts)\<close>.\<close>

fun py_split :: "char \<Rightarrow> string \<Rightarrow> string list" where
  "py_split sep [] = [[]]"
| "py_split sep (c # cs) =
     (if c = sep then [] # py_split sep cs
      else (case py_split sep cs of
              [] \<Rightarrow> [[c]]
            | w # ws \<Rightarrow> (c # w) # ws))"

fun py_join :: "string \<Rightarrow> string list \<Rightarrow> string" where
  "py_join sep [] = []"
| "py_join sep [x] = x"
| "py_join sep (x # y # rest) = x @ sep @ py_join sep (y # rest)"

text \<open>\<^verbatim>\<open>html.escape(s)\<close> with its default \<^verbatim>\<open>quote=True\<close>.\<close>

definition escape_char :: "char \<Rightarrow> string" where
  "escape_char c =
     (if c = CHR ''&'' then ''&amp;''
      else if c = CHR ''<'' then ''&lt;''
      else if c = CHR ''>'' then ''&gt;''
      else if c = CHR 0x22 then ''&quot;''
      else if c = CHR 0x27 then ''&#x27;''
      else [c])"

definition html_escape :: "string \<Rightarrow> string" where
  "html_escape s = concat (map escape_char s)"

text \<open>\<^verbatim>\<open>escape(value)\<close> on any value: only a string has \<^verbatim>\<open>replace\<close>.\<close>

fun escape :: "yval \<Rightarrow> error + string" where
  "escape (YStr s) = Inr (html_escape s)"
| "escape _ = Inl AttributeError"

text \<open>\<^verbatim>\<open>str.lower()\<close> on code points below 256.\<close>

definition py_lower_char :: "char \<Rightarrow> char" where
  "py_lower_char c =
     (let n = (of_char c :: nat)
      in if (65 \<le> n \<and> n \<le> 90) \<or> (192 \<le> n \<and> n \<le> 222 \<and> n \<noteq> 215)
         then char_of (n + 32) else c)"

definition py_lower :: "string \<Rightarrow> string" where
  "py_lower s = map py_lower_char s"

text \<open>\<^verbatim>\<open>str(n)\<close> of an integer.\<close>

function nat_str :: "nat \<Rightarrow> string" where
  "nat_str n =
     (if n < 10 then [char_of (48 + n)]
      else nat_str (n div 10) @ [char_of (48 + n mod 10)])"
  by pat_completeness auto
termination
  by (relation "measure id") auto

definition int_str :: "int \<Rightarrow> string" where
  "int_str i = (if i < 0 then CHR ''-'' # nat_str (nat (- i)) else nat_str (nat i))"

text \<open>
  \<^verbatim>\<open>repr(s)\<close> of a string: single quotes, unless the string has a single quote and no
  double quote; the quote, the backslash and the characters that do not print are
  escaped.
\<close>

definition hex_digit :: "nat \<Rightarrow> char" where
  "hex_digit n = (if n < 10 then char_of (48 + n) else char_of (87 + n))"

definition repr_char :: "char \<Rightarrow> char \<Rightarrow> string" where
  "repr_char quote c =
     (let n = (of_char c :: nat)
      in if c = quote \<or> c = CHR 0x5C then [CHR 0x5C, c]
         else if n = 9 then [CHR 0x5C, CHR ''t'']
         else if n = 10 then [CHR 0x5C, CHR ''n'']
         else if n = 13 then [CHR 0x5C, CHR ''r'']
         else if n < 32 \<or> n = 127 \<or> (128 \<le> n \<and> n \<le> 160) \<or> n = 173
         then [CHR 0x5C, CHR ''x'', hex_digit (n div 16), hex_digit (n mod 16)]
         else [c])"

definition repr_str :: "string \<Rightarrow> string" where
  "repr_str s =
     (let quote = (if CHR 0x27 \<in> set s \<and> CHR 0x22 \<notin> set s then CHR 0x22 else CHR 0x27)
      in [quote] @ concat (map (repr_char quote) s) @ [quote])"

text \<open>\<^verbatim>\<open>repr(v)\<close> and \<^verbatim>\<open>str(v)\<close> of a parsed value.\<close>

fun py_repr :: "yval \<Rightarrow> string"
  and py_repr_list :: "yval list \<Rightarrow> string list"
  and py_repr_items :: "ydict \<Rightarrow> string list" where
  "py_repr YNull = ''None''"
| "py_repr (YBool b) = (if b then ''True'' else ''False'')"
| "py_repr (YInt i) = int_str i"
| "py_repr (YStr s) = repr_str s"
| "py_repr (YList xs) = ''['' @ py_join '', '' (py_repr_list xs) @ '']''"
| "py_repr (YDict d) = ''{'' @ py_join '', '' (py_repr_items d) @ ''}''"
| "py_repr_list [] = []"
| "py_repr_list (x # xs) = py_repr x # py_repr_list xs"
| "py_repr_items [] = []"
| "py_repr_items ((k, v) # rest) = (repr_str k @ '': '' @ py_repr v) # py_repr_items rest"

fun py_str :: "yval \<Rightarrow> string" where
  "py_str (YStr s) = s"
| "py_str v = py_repr v"

text \<open>\<^verbatim>\<open>for x in v\<close>: the items of a list, the keys of a dict, the characters of a string.\<close>

fun py_iter :: "yval \<Rightarrow> error + yval list" where
  "py_iter (YList xs) = Inr xs"
| "py_iter (YDict d) = Inr (map (\<lambda>kv. YStr (fst kv)) d)"
| "py_iter (YStr s) = Inr (map (\<lambda>c. YStr [c]) s)"
| "py_iter _ = Inl TypeError"

section \<open>HTMLConverter\<close>

text \<open>The options of the converter that the generated text depends on.\<close>

record html_converter =
  doctype :: string
  include_meta_tags :: bool
  responsive_design :: bool

definition default_converter :: html_converter where
  \<open>default_converter = \<lparr>doctype = ''html5'', include_meta_tags = True, responsive_design = True\<rparr>\<close>

text \<open>
  \<^verbatim>\<open>_format_css_selector\<close>: \<^verbatim>\<open>re.sub(r'([a-z0-9])([A-Z])', r'\1-\2', selector)\<close> puts a
  hyphen between a lower-case letter or digit and the capital after it, scanning from
  the left without overlap; then the name is lowered and gets a dot unless it starts
  with a dot or a hash.
\<close>

definition is_lower_or_digit :: "char \<Rightarrow> bool" where
  \<open>is_lower_or_digit c = (let n = (of_char c :: nat) in (97 \<le> n \<and> n \<le> 122) \<or> (48 \<le> n \<and> n \<le> 57))\<close>

definition is_upper :: "char \<Rightarrow> bool" where
  \<open>is_upper c = (let n = (of_char c :: nat) in 65 \<le> n \<and> n \<le> 90)\<close>

fun camel_to_kebab :: "string \<Rightarrow> string" where
  \<open>camel_to_kebab (a # b # rest) =
     (if is_lower_or_digit a \<and> is_upper b then a # CHR ''-'' # b # camel_to_kebab rest
      else a # camel_to_kebab (b # rest))\<close>
| \<open>camel_to_kebab s = s\<close>

definition format_css_selector :: "string \<Rightarrow> string" where
  \<open>format_css_selector selector =
     (let kebab_case = py_lower (camel_to_kebab selector)
      in if \<not> prefix ''.'' kebab_case \<and> \<not> prefix ''#'' kebab_case
         then ''.'' @ kebab_case else kebab_case)\<close>

text \<open>\<^verbatim>\<open>_format_css_rules\<close>; a value that is not a string has no \<^verbatim>\<open>split\<close>.\<close>

definition format_rule :: "string \<Rightarrow> string list" where
  \<open>format_rule rule =
     (let rule = py_strip rule
      in if rule \<noteq> [] then [if \<not> endswith_semicolon rule then rule @ '';'' else rule] else [])\<close>

definition format_css_rules :: "yval \<Rightarrow> error + string list" where
  \<open>format_css_rules rules =
     (if \<not> truthy rules then Inr []
      else case rules of
             YStr s \<Rightarrow> Inr (concat (map format_rule (py_split CHR '';'' s)))
           | _ \<Rightarrow> Inl AttributeError)\<close>

text \<open>\<^verbatim>\<open>_generate_css\<close>, the loop over \<^verbatim>\<open>styles.items()\<close>.\<close>

fun generate_css_items :: "ydict \<Rightarrow> error + string list" where
  \<open>generate_css_items [] = Inr []\<close>
| \<open>generate_css_items ((selector, rules) # rest) =
     (case format_css_rules rules of
        Inl e \<Rightarrow> Inl e
      | Inr formatted_rules \<Rightarrow>
          (case generate_css_items rest of
             Inl e \<Rightarrow> Inl e
           | Inr css_lines \<Rightarrow>
               Inr ([''    '' @ format_css_selector selector @ '' {'']
                    @ map (\<lambda>rule. ''      '' @ rule) formatted_rules
                    @ [''    }'', '''']
                    @ css_lines)))\<close>

fun generate_css :: "yval \<Rightarrow> error + string list" where
  \<open>generate_css (YDict styles) = generate_css_items styles\<close>
| \<open>generate_css _ = Inl AttributeError\<close>

text \<open>\<^verbatim>\<open>_generate_meta_tags\<close>.  Each tag is written when its value is truthy.\<close>

definition meta_tag :: "string \<Rightarrow> string \<Rightarrow> yval \<Rightarrow> error + string list" where
  \<open>meta_tag kind name v =
     (if truthy v
      then (case escape v of
              Inl e \<Rightarrow> Inl e
            | Inr s \<Rightarrow> Inr [''  <meta '' @ kind @ ''="'' @ name @ ''" content="'' @ s @ ''">''])
      else Inr [])\<close>

fun join_keywords :: "yval \<Rightarrow> error + yval" where
  \<open>join_keywords (YList xs) =
     (if list_all is_str xs then Inr (YStr (py_join '', '' (map py_str xs))) else Inl TypeError)\<close>
| \<open>join_keywords v = Inr v\<close>

definition keywords_tag :: "yval \<Rightarrow> error + string list" where
  \<open>keywords_tag keywords =
     (if truthy keywords
      then (case join_keywords keywords of
              Inl e \<Rightarrow> Inl e
            | Inr joined \<Rightarrow>
                (case escape joined of
                   Inl e \<Rightarrow> Inl e
                 | Inr s \<Rightarrow> Inr [''  <meta name="keywords" content="'' @ s @ ''">'']))
      else Inr [])\<close>

definition generate_meta_tags :: "yval \<Rightarrow> error + string list" where
  \<open>generate_meta_tags metadata =
     (case metadata of
        YDict md \<Rightarrow>
          (case sequence_sum
                  [meta_tag ''name'' ''description'' (py_get md ''description'' YNull),
                   meta_tag ''name'' ''author'' (py_get md ''author'' YNull),
                   keywords_tag (py_get md ''keywords'' YNull),
                   meta_tag ''property'' ''og:title'' (py_get md ''title'' YNull),
                   meta_tag ''property'' ''og:description'' (py_get md ''description'' YNull),
                   Inr [''  <meta property="og:type" content="website">'']] of
             Inl e \<Rightarrow> Inl e
           | Inr tags \<Rightarrow> Inr (concat tags))
      | _ \<Rightarrow> Inl AttributeError)\<close>

text \<open>\<^verbatim>\<open>_generate_head\<close>.\<close>

definition title_line :: "yval \<Rightarrow> error + string list" where
  \<open>title_line metadata =
     (case py_dict_get metadata ''title'' (YStr ''Untitled'') of
        Inl e \<Rightarrow> Inl e
      | Inr t \<Rightarrow>
          (case escape t of
             Inl e \<Rightarrow> Inl e
           | Inr title \<Rightarrow> Inr [''  <title>'' @ title @ ''</title>'']))\<close>

definition link_lines :: "yval \<Rightarrow> string \<Rightarrow> (string \<Rightarrow> string list) \<Rightarrow> error + string list" where
  \<open>link_lines imports key lines =
     (case py_dict_get imports key (YList []) of
        Inl e \<Rightarrow> Inl e
      | Inr urls \<Rightarrow>
          (case py_iter urls of
             Inl e \<Rightarrow> Inl e
           | Inr items \<Rightarrow>
               (case sequence_sum (map escape items) of
                  Inl e \<Rightarrow> Inl e
                | Inr escaped \<Rightarrow> Inr (concat (map lines escaped)))))\<close>

definition stylesheet_link :: "string \<Rightarrow> string list" where
  \<open>stylesheet_link url = [''  <link rel="stylesheet" href="'' @ url @ ''">'']\<close>

definition font_links :: "string \<Rightarrow> string list" where
  \<open>font_links url =
     [''  <link rel="preconnect" href="https://fonts.googleapis.com">'',
      ''  <link rel="preconnect" href="https://fonts.gstatic.com" crossorigin>'',
      ''  <link rel="stylesheet" href="'' @ url @ ''">'']\<close>

definition style_block :: "yval \<Rightarrow> error + string list" where
  \<open>style_block styles =
     (if truthy styles
      then (case generate_css styles of
              Inl e \<Rightarrow> Inl e
            | Inr css \<Rightarrow> Inr ([''  <style>''] @ css @ [''  </style>'']))
      else Inr [])\<close>

definition generate_head :: "html_converter \<Rightarrow> yval \<Rightarrow> yval \<Rightarrow> yval \<Rightarrow> error + string" where
  \<open>generate_head self metadata styles imports =
     (case sequence_sum
             [Inr [''<head>''],
              Inr [if doctype self = ''html5'' then ''  <meta charset="UTF-8">''
                   else ''  <meta http-equiv="Content-Type" content="text/html; charset=UTF-8">''],
              Inr (if responsive_design self
                   then [''  <meta name="viewport" content="width=device-width, initial-scale=1.0">'']
                   else []),
              (if include_meta_tags self then generate_meta_tags metadata else Inr []),
              title_line metadata,
              link_lines imports ''styles'' stylesheet_link,
              link_lines imports ''fonts'' font_links,
              style_block styles,
              Inr [''</head>'']] of
        Inl e \<Rightarrow> Inl e
      | Inr head_parts \<Rightarrow> Inr (py_join [CHR 0x0A] (concat head_parts)))\<close>

text \<open>\<^verbatim>\<open>_is_html_element\<close> and \<^verbatim>\<open>_format_attributes\<close>.\<close>

definition html_elements :: "string list" where
  \<open>html_elements =
     [''html'', ''head'', ''body'', ''title'', ''meta'', ''link'', ''style'', ''script'',
      ''div'', ''span'', ''p'', ''br'', ''hr'',
      ''h1'', ''h2'', ''h3'', ''h4'', ''h5'', ''h6'',
      ''ul'', ''ol'', ''li'', ''dl'', ''dt'', ''dd'',
      ''table'', ''thead'', ''tbody'', ''tr'', ''td'', ''th'',
      ''form'', ''input'', ''textarea'', ''select'', ''option'', ''button'', ''label'',
      ''a'', ''img'', ''video'', ''audio'', ''source'',
      ''header'', ''nav'', ''main'', ''section'', ''article'', ''aside'', ''footer'',
      ''figure'', ''figcaption'', ''details'', ''summary'']\<close>

definition is_html_element :: "string \<Rightarrow> bool" where
  \<open>is_html_element name = (py_lower name \<in> set html_elements)\<close>

definition void_elements :: "string list" where
  \<open>void_elements = [''img'', ''br'', ''hr'', ''input'', ''meta'', ''link'']\<close>

definition format_attributes :: "ydict \<Rightarrow> string" where
  \<open>format_attributes attributes =
     (if attributes = [] then []
      else '' '' @ py_join '' '' (map (\<lambda>kv. fst kv @ ''="'' @ py_str (snd kv) @ ''"'') attributes))\<close>

text \<open>
  The last part of \<^verbatim>\<open>_convert_element_to_html\<close>: the text of an element from its tag,
  its attributes and the content collected for it.
\<close>

definition indent_str :: "nat \<Rightarrow> string" where
  \<open>indent_str indent = concat (replicate indent ''  '')\<close>

definition emit_element :: "nat \<Rightarrow> string \<Rightarrow> string \<Rightarrow> string list \<Rightarrow> string" where
  \<open>emit_element indent tag_name attr_str content =
     (if content = []
      then (if tag_name \<in> set void_elements
            then indent_str indent @ ''<'' @ tag_name @ attr_str @ ''>''
            else indent_str indent @ ''<'' @ tag_name @ attr_str @ ''></'' @ tag_name @ ''>'')
      else if length content = 1 \<and> CHR 0x0A \<notin> set (hd content)
      then indent_str indent @ ''<'' @ tag_name @ attr_str @ ''>'' @ hd content
             @ ''</'' @ tag_name @ ''>''
      else py_join [CHR 0x0A]
             ([indent_str indent @ ''<'' @ tag_name @ attr_str @ ''>'']
              @ map (\<lambda>item. ''  '' @ indent_str indent @ item)
                  (filter (\<lambda>item. py_strip item \<noteq> []) content)
              @ [indent_str indent @ ''</'' @ tag_name @ ''>'']))\<close>

text \<open>
  The tag of an element when its loop found none: the first key, if it names an HTML
  element, and \<^verbatim>\<open>div\<close> otherwise.  \<^verbatim>\<open>next(iter(element.keys()))\<close> raises
  \<^verbatim>\<open>StopIteration\<close> on an empty dict.
\<close>

definition resolve_tag :: "ydict \<Rightarrow> string option \<Rightarrow> error + string" where
  \<open>resolve_tag element tag_name =
     (case tag_name of
        Some t \<Rightarrow> Inr t
      | None \<Rightarrow>
          (case element of
             [] \<Rightarrow> Inl StopIteration
           | (first_key, _) # _ \<Rightarrow>
               Inr (if is_html_element first_key then first_key else ''div'')))\<close>

text \<open>The branch of the loop for the key \<^verbatim>\<open>style\<close>.\<close>

definition style_attribute :: "yval \<Rightarrow> yval \<Rightarrow> ydict \<Rightarrow> error + ydict" where
  \<open>style_attribute styles v attributes =
     (case py_in styles v of
        Inl e \<Rightarrow> Inl e
      | Inr True \<Rightarrow>
          (case v of
             YStr s \<Rightarrow>
               Inr (dict_set attributes ''class''
                      (YStr (dropWhile (\<lambda>c. c = CHR ''.'') (format_css_selector s))))
           | _ \<Rightarrow> Inl TypeError)
      | Inr False \<Rightarrow> Inr (dict_set attributes ''style'' v))\<close>

text \<open>\<^verbatim>\<open>escape(value)\<close> for a string and \<^verbatim>\<open>str(value)\<close> otherwise; \<^verbatim>\<open>escape(str(value))\<close>.\<close>

fun text_content :: "yval \<Rightarrow> string" where
  \<open>text_content (YStr s) = html_escape s\<close>
| \<open>text_content v = py_str v\<close>

definition escape_str :: "yval \<Rightarrow> string" where
  \<open>escape_str v = html_escape (py_str v)\<close>

text \<open>A \<^verbatim>\<open>StopIteration\<close> that leaves a generator becomes a \<^verbatim>\<open>RuntimeError\<close>.\<close>

fun from_generator :: "error \<Rightarrow> error" where
  \<open>from_generator StopIteration = RuntimeError\<close>
| \<open>from_generator e = e\<close>

text \<open>
  The branches of the loop over \<^verbatim>\<open>element.items()\<close> in
  \<^verbatim>\<open>_convert_element_to_html\<close>, in the order of its \<^verbatim>\<open>if\<close> and \<^verbatim>\<open>elif\<close>.  A key
  that no branch takes is passed over.
\<close>

datatype key_kind = TextKey | ChildrenKey | StyleKey | AttributeKey | ElementKey | OtherKey

definition key_kind :: "string \<Rightarrow> key_kind" where
  "key_kind key =
     (if key \<in> set [''text'', ''content''] then TextKey
      else if key = ''children'' then ChildrenKey
      else if key = ''style'' then StyleKey
      else if key \<in> set [''class'', ''id'', ''src'', ''href'', ''alt'', ''title''] then AttributeKey
      else if is_html_element key then ElementKey
      else OtherKey)"

text \<open>
  The state of the loop: the tag name, the attributes and the content.  \<open>plain_key\<close>
  is the step of the loop for a key whose branch converts no nested structure.
\<close>

type_synonym element_state = "string option \<times> ydict \<times> string list"

definition add_content :: "element_state \<Rightarrow> string list \<Rightarrow> element_state" where
  "add_content state htmls = (fst state, fst (snd state), snd (snd state) @ htmls)"

definition set_tag_name :: "string \<Rightarrow> element_state \<Rightarrow> element_state" where
  "set_tag_name key state = (Some key, snd state)"

definition plain_key :: "string \<Rightarrow> yval \<Rightarrow> yval \<Rightarrow> element_state \<Rightarrow> error + element_state" where
  "plain_key key v styles state =
     (case key_kind key of
        TextKey \<Rightarrow> Inr (add_content state [text_content v])
      | StyleKey \<Rightarrow>
          (case style_attribute styles v (fst (snd state)) of
             Inl e \<Rightarrow> Inl e
           | Inr attributes \<Rightarrow> Inr (fst state, attributes, snd (snd state)))
      | AttributeKey \<Rightarrow>
          Inr (fst state, dict_set (fst (snd state)) key (YStr (escape_str v)), snd (snd state))
      | _ \<Rightarrow> Inr state)"

text \<open>
  \<^verbatim>\<open>_convert_structure_to_html\<close> and \<^verbatim>\<open>_convert_element_to_html\<close>.
  \<open>convert_items\<close> converts the items of a list in order (the generator of the list
  branch, and the loop over a list of children, whose results are appended to the
  content), and \<open>scan_element\<close> is the loop over \<^verbatim>\<open>element.items()\<close>.
\<close>

function (sequential) convert_structure_to_html :: "yval \<Rightarrow> yval \<Rightarrow> nat \<Rightarrow> error + string"
  and convert_items :: "yval list \<Rightarrow> yval \<Rightarrow> nat \<Rightarrow> error + string list"
  and convert_element_to_html :: "ydict \<Rightarrow> yval \<Rightarrow> nat \<Rightarrow> error + string"
  and scan_element :: "ydict \<Rightarrow> yval \<Rightarrow> nat \<Rightarrow> element_state \<Rightarrow> error + element_state"
where
  "convert_structure_to_html (YDict element) styles indent =
     convert_element_to_html element styles indent"
| "convert_structure_to_html (YList items) styles indent =
     (case convert_items items styles indent of
        Inl e \<Rightarrow> Inl (from_generator e)
      | Inr parts \<Rightarrow> Inr (py_join [CHR 0x0A] parts))"
| "convert_structure_to_html (YStr s) styles indent = Inr (html_escape s)"
| "convert_structure_to_html v styles indent = Inr (py_str v)"
| "convert_items [] styles indent = Inr []"
| "convert_items (item # rest) styles indent =
     (case convert_structure_to_html item styles indent of
        Inl e \<Rightarrow> Inl e
      | Inr html \<Rightarrow>
          (case convert_items rest styles indent of
             Inl e \<Rightarrow> Inl e
           | Inr parts \<Rightarrow> Inr (html # parts)))"
| "convert_element_to_html element styles indent =
     (case scan_element element styles indent (None, [], []) of
        Inl e \<Rightarrow> Inl e
      | Inr state \<Rightarrow>
          (case resolve_tag element (fst state) of
             Inl e \<Rightarrow> Inl e
           | Inr tag \<Rightarrow>
               Inr (emit_element indent tag (format_attributes (fst (snd state))) (snd (snd state)))))"
| "scan_element [] styles indent state = Inr state"
| "scan_element ((key, v) # rest) styles indent state =
     (case key_kind key of
        ChildrenKey \<Rightarrow>
          (case (case v of
                   YList children \<Rightarrow> convert_items children styles (indent + 1)
                 | _ \<Rightarrow>
                     (case convert_structure_to_html v styles (indent + 1) of
                        Inl e \<Rightarrow> Inl e
                      | Inr child_html \<Rightarrow> Inr [child_html])) of
             Inl e \<Rightarrow> Inl e
           | Inr child_htmls \<Rightarrow> scan_element rest styles indent (add_content state child_htmls))
      | ElementKey \<Rightarrow>
          (case (case v of
                   YDict child \<Rightarrow> convert_element_to_html child styles (indent + 1)
                 | _ \<Rightarrow> Inr (escape_str v)) of
             Inl e \<Rightarrow> Inl e
           | Inr child_html \<Rightarrow>
               scan_element rest styles indent (set_tag_name key (add_content state [child_html])))
      | _ \<Rightarrow>
          (case plain_key key v styles state of
             Inl e \<Rightarrow> Inl e
           | Inr state' \<Rightarrow> scan_element rest styles indent state'))"
  by pat_completeness auto
termination
  by (relation "measure (case_sum
        (case_sum (\<lambda>p. 2 * size (fst p)) (\<lambda>p. 2 * size_list size (fst p)))
        (case_sum (\<lambda>p. 2 * size_list (size_prod (\<lambda>k. 0) size) (fst p) + 1)
                  (\<lambda>p. 2 * size_list (size_prod (\<lambda>k. 0) size) (fst p))))") auto

text \<open>\<^verbatim>\<open>_generate_body\<close> and \<^verbatim>\<open>_generate_document\<close>.\<close>

definition generate_body :: "yval \<Rightarrow> yval \<Rightarrow> error + string" where
  "generate_body structure styles =
     (if truthy structure
      then (case convert_structure_to_html structure styles 1 of
              Inl e \<Rightarrow> Inl e
            | Inr body_content \<Rightarrow> Inr (py_join [CHR 0x0A] [''<body>'', body_content, ''</body>'']))
      else Inr (py_join [CHR 0x0A] [''<body>'', ''</body>'']))"

definition generate_document :: "html_converter \<Rightarrow> string \<Rightarrow> string \<Rightarrow> string" where
  \<open>generate_document self head_html body_html =
     (let doctype_line =
            (if doctype self = ''html4''
             then ''<!DOCTYPE HTML PUBLIC "-//W3C//DTD HTML 4.01 Transitional//EN" "http://www.w3.org/TR/html4/loose.dtd">''
             else if doctype self = ''xhtml''
             then ''<!DOCTYPE html PUBLIC "-//W3C//DTD XHTML 1.0 Transitional//EN" "http://www.w3.org/TR/xhtml1/DTD/xhtml1-transitional.dtd">''
             else ''<!DOCTYPE html>'');
          lang_attr = (if doctype self = ''html5'' then ''lang="en"'' else ''lang="en" xml:lang="en"'')
      in py_join [CHR 0x0A]
           [doctype_line, ''<html '' @ lang_attr @ ''>'', head_html, body_html, ''</html>''])\<close>

text \<open>
  Modelled from the spec: \<^verbatim>\<open>extract_metadata\<close>, \<^verbatim>\<open>extract_styles\<close> and
  \<^verbatim>\<open>extract_imports\<close>, which \<^verbatim>\<open>convert\<close> calls, are methods of \<^verbatim>\<open>BaseConverter\<close>
  and missing; the spec has "Extract \<^verbatim>\<open>metadata\<close>, \<^verbatim>\<open>styles\<close>, \<^verbatim>\<open>imports\<close>,
  \<^verbatim>\<open>structure\<close> from the resolved manifest", and each is the section of that name,
  an empty mapping when the manifest has none, as \<^verbatim>\<open>convert\<close> itself reads
  \<^verbatim>\<open>structure\<close>.
\<close>

definition extract_section :: "ydict \<Rightarrow> string \<Rightarrow> yval" where
  "extract_section manifest name = py_get manifest name (YDict [])"

text \<open>The document \<^verbatim>\<open>convert\<close> builds, before the optimizer and the header comment.\<close>

definition convert_document :: "html_converter \<Rightarrow> ydict \<Rightarrow> error + string" where
  "convert_document self manifest =
     (let metadata = extract_section manifest ''metadata'';
          styles = extract_section manifest ''styles'';
          imports = extract_section manifest ''imports'';
          structure = py_get manifest ''structure'' (YDict [])
      in case generate_head self metadata styles imports of
           Inl e \<Rightarrow> Inl e
         | Inr head_html \<Rightarrow>
             (case generate_body structure styles of
                Inl e \<Rightarrow> Inl e
              | Inr body_html \<Rightarrow> Inr (generate_document self head_html body_html)))"

text \<open>
  Modelled from the spec: \<^verbatim>\<open>handle_conversion_error\<close>, a method of \<^verbatim>\<open>BaseConverter\<close>, is
  missing;
  the spec has "all such errors are caught at the top-level \<^verbatim>\<open>convert\<close> call and
  translated to this single error kind", a \<^verbatim>\<open>ConversionError\<close>.
\<close>

definition handle_conversion_error :: "error \<Rightarrow> string \<Rightarrow> error" where
  "handle_conversion_error e context = ConversionError context e"

text \<open>
  The whole body of \<^verbatim>\<open>convert\<close> is inside \<^verbatim>\<open>try\<close>, and \<^verbatim>\<open>except Exception\<close> raises
  what \<^verbatim>\<open>handle_conversion_error\<close> returns.  The steps after the document
  (\<^verbatim>\<open>optimize_code\<close>, \<^verbatim>\<open>add_header_comment\<close>, \<^verbatim>\<open>generate_filename\<close>, the
  \<^verbatim>\<open>ConversionResult\<close> with its count of elements) rest on \<^verbatim>\<open>BaseConverter\<close> and
  \<^verbatim>\<open>StructureWalker\<close>; they are the parameter \<open>finish\<close>, which may raise as well.
\<close>

definition convert ::
  "html_converter \<Rightarrow> (string \<Rightarrow> ydict \<Rightarrow> error + 'r) \<Rightarrow> ydict \<Rightarrow> error + 'r" where
  "convert self finish manifest =
     (case (case convert_document self manifest of
              Inl e \<Rightarrow> Inl e
            | Inr html_content \<Rightarrow> finish html_content manifest) of
        Inl e \<Rightarrow> Inl (handle_conversion_error e ''HTML conversion'')
      | Inr result \<Rightarrow> Inr result)"

fun is_conversion_error :: "error \<Rightarrow> bool" where
  "is_conversion_error (ConversionError context e) = True"
| "is_conversion_error _ = False"

text \<open>For the examples: a last step that returns the document, and manifests.\<close>

definition content_only :: "string \<Rightarrow> ydict \<Rightarrow> error + string" where
  "content_only html_content manifest = Inr html_content"

definition manifest_list_style :: ydict where
  "manifest_list_style =
     [(''metadata'', YDict [(''title'', YStr ''T'')]),
      (''styles'', YDict [(''external'', YList [YStr ''a.css'', YStr ''b.css''])]),
      (''structure'', YDict [(''div'', YStr ''x'')])]"

definition manifest_empty_div :: ydict where
  "manifest_empty_div =
     [(''metadata'', YDict [(''title'', YStr ''T'')]),
      (''structure'', YDict [(''div'', YDict [])])]"



section \<open>Style normalisation is idempotent\<close>

lemma is_space_blank: "is_space (CHR '' '')" by (simp add: is_space_def)
lemma not_is_space_semicolon: "\<not> is_space (CHR '';'')" by (simp add: is_space_def)

lemma dropWhile_stripped: "s = [] \<or> \<not> is_space (hd s) \<Longrightarrow> dropWhile is_space s = s"
  by (cases s) auto

lemma py_strip_stripped: "stripped s \<Longrightarrow> py_strip s = s"
  unfolding stripped_def py_strip_def
  by (cases "s = []") (auto simp: dropWhile_stripped hd_rev)

lemma hd_dropWhile_not: "dropWhile P xs \<noteq> [] \<Longrightarrow> \<not> P (hd (dropWhile P xs))"
  by (induction xs) auto

lemma stripped_py_strip: "stripped (py_strip s)"
proof -
  let ?a = "dropWhile is_space s"
  let ?b = "dropWhile is_space (rev ?a)"
  show ?thesis
  proof (cases "?b = []")
    case True then show ?thesis by (simp add: stripped_def py_strip_def)
  next
    case False
    then have l: "\<not> is_space (last (rev ?b))" by (simp add: last_rev hd_dropWhile_not)
    from False have ne: "?a \<noteq> []" by (metis dropWhile.simps(1) rev.simps(1))
    then have h: "\<not> is_space (hd ?a)" by (rule hd_dropWhile_not)
    have "\<exists>ys. rev ?a = ys @ ?b" by (metis takeWhile_dropWhile_id)
    then obtain ys where "rev ?a = ys @ ?b" ..
    then have "?a = rev ?b @ rev ys" by (metis rev_append rev_rev_ident)
    with False have "hd (rev ?b) = hd ?a" by (metis hd_append2 rev_is_Nil_conv)
    with h l False show ?thesis by (simp add: stripped_def py_strip_def)
  qed
qed

lemma collapse_ws_hd: "s \<noteq> [] \<Longrightarrow> \<not> is_space (hd s) \<Longrightarrow> collapse_ws s \<noteq> [] \<and> hd (collapse_ws s) = hd s"
  by (cases s) auto

lemma collapse_ws_Nil: "collapse_ws s = [] \<longleftrightarrow> s = []"
  by (cases s) auto

lemma collapse_ws_last: "s \<noteq> [] \<Longrightarrow> \<not> is_space (last s) \<Longrightarrow> last (collapse_ws s) = last s"
proof (induction s rule: collapse_ws.induct)
  case 1 then show ?case by simp
next
  case (2 c cs)
  show ?case
  proof (cases "is_space c")
    case True
    with "2.prems" have cs: "cs \<noteq> []" by auto
    with "2.prems" have lc: "\<not> is_space (last cs)" by simp
    have "\<exists>ys. cs = ys @ dropWhile is_space cs" by (metis takeWhile_dropWhile_id)
    then obtain ys where ys: "cs = ys @ dropWhile is_space cs" ..
    have dne: "dropWhile is_space cs \<noteq> []" using cs lc
      by (metis dropWhile_eq_Nil_conv last_in_set)
    then have ll: "last (dropWhile is_space cs) = last cs" using ys by (metis last_appendR)
    have ih: "last (collapse_ws (dropWhile is_space cs)) = last (dropWhile is_space cs)"
      using "2.IH"(1) [OF True dne] lc ll by simp
    have ne: "collapse_ws (dropWhile is_space cs) \<noteq> []" using dne by (metis collapse_ws_Nil)
    have "collapse_ws (c # cs) = CHR '' '' # collapse_ws (dropWhile is_space cs)" using True by simp
    then have "last (collapse_ws (c # cs)) = last (collapse_ws (dropWhile is_space cs))"
      using ne by simp
    also have "\<dots> = last cs" using ih ll by simp
    also have "\<dots> = last (c # cs)" using cs by simp
    finally show ?thesis .
  next
    case False
    with 2 show ?thesis by (cases cs) (auto simp: collapse_ws_Nil)
  qed
qed

lemma collapse_ws_idem: "collapse_ws (collapse_ws s) = collapse_ws s"
proof (induction s rule: collapse_ws.induct)
  case 1 then show ?case by simp
next
  case (2 c cs)
  show ?case
  proof (cases "is_space c")
    case True
    let ?d = "dropWhile is_space cs"
    have "dropWhile is_space (collapse_ws ?d) = collapse_ws ?d"
    proof (cases "?d = []")
      case True then show ?thesis by (simp only: collapse_ws.simps dropWhile.simps)
    next
      case False
      then have "\<not> is_space (hd ?d)" by (rule hd_dropWhile_not)
      with False have "\<not> is_space (hd (collapse_ws ?d))" using collapse_ws_hd [of ?d] by simp
      then show ?thesis by (rule dropWhile_stripped [OF disjI2])
    qed
    with 2 True show ?thesis by (simp add: is_space_blank)
  next
    case False with 2 show ?thesis by simp
  qed
qed

lemma collapse_ws_snoc:
  "\<not> is_space c \<Longrightarrow> t = [] \<or> \<not> is_space (last t) \<Longrightarrow> collapse_ws (t @ [c]) = collapse_ws t @ [c]"
proof (induction t rule: collapse_ws.induct)
  case 1 then show ?case by simp
next
  case (2 x xs)
  show ?case
  proof (cases "is_space x")
    case True
    with "2.prems" have xs: "xs \<noteq> []" and lx: "\<not> is_space (last xs)"
      by (auto split: if_splits)
    then have dne: "dropWhile is_space xs \<noteq> []" by (metis dropWhile_eq_Nil_conv last_in_set)
    have "\<exists>ys. xs = ys @ dropWhile is_space xs" by (metis takeWhile_dropWhile_id)
    then obtain ys where ys: "xs = ys @ dropWhile is_space xs" ..
    have ll: "last (dropWhile is_space xs) = last xs" using ys dne by (metis last_appendR)
    have da: "dropWhile is_space (xs @ [c]) = dropWhile is_space xs @ [c]"
      using dne by (metis dropWhile_append1 dropWhile_eq_Nil_conv)
    have ih: "collapse_ws (dropWhile is_space xs @ [c]) = collapse_ws (dropWhile is_space xs) @ [c]"
      using "2.IH"(1) [OF True "2.prems"(1)] ll lx by simp
    have "collapse_ws ((x # xs) @ [c]) = CHR '' '' # collapse_ws (dropWhile is_space (xs @ [c]))"
      using True by simp
    also have "\<dots> = CHR '' '' # collapse_ws (dropWhile is_space xs) @ [c]" using da ih by simp
    also have "\<dots> = collapse_ws (x # xs) @ [c]" using True by simp
    finally show ?thesis .
  next
    case False
    with 2 show ?thesis by (cases "xs = []") auto
  qed
qed

lemma stripped_collapse_ws: "stripped s \<Longrightarrow> stripped (collapse_ws s)"
  unfolding stripped_def by (auto simp: collapse_ws_hd collapse_ws_last collapse_ws_Nil)

lemma clean_css_idem: "clean_css (clean_css s) = clean_css s"
proof -
  let ?t = "collapse_ws (py_strip s)"
  have st: "stripped ?t" by (simp add: stripped_py_strip stripped_collapse_ws)
  show ?thesis
  proof (cases "?t \<noteq> [] \<and> \<not> endswith_semicolon ?t")
    case False
    then have "clean_css s = ?t" by (simp add: clean_css_def Let_def)
    moreover have "clean_css ?t = ?t" using False st
      by (auto simp: clean_css_def Let_def py_strip_stripped collapse_ws_idem)
    ultimately show ?thesis by simp
  next
    case True
    then have c: "clean_css s = ?t @ '';''" by (simp add: clean_css_def Let_def)
    from True st have nl: "\<not> is_space (last ?t)" and nh: "\<not> is_space (hd ?t)" by (auto simp: stripped_def)
    have s2: "stripped (?t @ '';'')" using True nh
      by (simp add: stripped_def not_is_space_semicolon)
    have "collapse_ws (?t @ '';'') = ?t @ '';''"
      using collapse_ws_snoc [of "CHR '';''" ?t] nl by (simp add: not_is_space_semicolon collapse_ws_idem)
    then have "clean_css (?t @ '';'') = ?t @ '';''"
      using s2 by (simp add: clean_css_def Let_def py_strip_stripped endswith_semicolon_def)
    with c show ?thesis by simp
  qed
qed

lemma map_of_dict_set_same: "map_of (dict_set d k v) k = Some v"
  by (induction d) auto

lemma map_of_dict_set_other: "k' \<noteq> k \<Longrightarrow> map_of (dict_set d k v) k' = map_of d k'"
  by (induction d) auto

lemma dict_set_same: "map_of d k = Some v \<Longrightarrow> dict_set d k v = d"
  by (induction d) (auto split: if_splits)

lemma dict_set_fresh: "k \<notin> fst ` set d \<Longrightarrow> dict_set d k v = d @ [(k, v)]"
  by (induction d) auto

lemma keys_dict_set: "fst ` set (dict_set d k v) = insert k (fst ` set d)"
  by (induction d k v rule: dict_set.induct) auto

lemma distinct_dict_set: "distinct (map fst d) \<Longrightarrow> distinct (map fst (dict_set d k v))"
  by (induction d) (auto simp: keys_dict_set)

lemma set_dict_set: "set (dict_set d k v) \<subseteq> insert (k, v) (set d)"
  by (induction d k v rule: dict_set.induct) auto

lemma clean_items_dict_set:
  "clean_items acc \<Longrightarrow> clean_css s = s \<Longrightarrow> clean_items (dict_set acc k (YStr s))"
  unfolding clean_items_def using set_dict_set [of acc k "YStr s"]
  by (auto simp: distinct_dict_set)

lemma process_style_items_clean:
  "process_style_items acc items = Inr r \<Longrightarrow> clean_items acc \<Longrightarrow> clean_items r"
proof (induction items arbitrary: acc)
  case Nil then show ?case by simp
next
  case (Cons kv items)
  obtain k v where kv: "kv = (k, v)" by (cases kv)
  from Cons.prems(1) kv obtain s where v: "v = YStr s"
    by (cases v) auto
  with Cons.prems(1) kv have "process_style_items (dict_set acc k (YStr (clean_css s))) items = Inr r"
    by simp
  moreover have "clean_items (dict_set acc k (YStr (clean_css s)))"
    using Cons.prems(2) by (simp add: clean_items_dict_set clean_css_idem)
  ultimately show ?case by (rule Cons.IH)
qed

lemma process_style_items_fixed:
  "clean_items ps \<Longrightarrow> fst ` set acc \<inter> fst ` set ps = {} \<Longrightarrow>
   process_style_items acc ps = Inr (acc @ ps)"
proof (induction ps arbitrary: acc)
  case Nil then show ?case by simp
next
  case (Cons kv ps)
  obtain k v where kv: "kv = (k, v)" by (cases kv)
  from Cons.prems(1) kv obtain s where v: "v = YStr s" and s: "clean_css s = s"
    by (auto simp: clean_items_def)
  from Cons.prems(2) kv have fresh: "k \<notin> fst ` set acc" by auto
  have c: "clean_items ps" using Cons.prems(1) by (auto simp: clean_items_def)
  have d: "fst ` set (acc @ [(k, v)]) \<inter> fst ` set ps = {}"
    using Cons.prems kv by (auto simp: clean_items_def)
  have "process_style_items acc (kv # ps) = process_style_items (acc @ [(k, v)]) ps"
    using kv v s fresh by (simp add: dict_set_fresh)
  also have "\<dots> = Inr ((acc @ [(k, v)]) @ ps)" using c d by (rule Cons.IH)
  finally show ?case using kv by simp
qed

lemma process_styles_idem:
  assumes a: "process_styles m = Inr m1"
  shows "process_styles m1 = Inr m1"
proof (cases "truthy (py_get m ''styles'' (YDict []))")
  case False
  with a have "m1 = m" by (simp add: process_styles_def)
  with False show ?thesis by (simp add: process_styles_def)
next
  case True
  with a obtain items ps where
    st: "py_get m ''styles'' (YDict []) = YDict items" and
    ps: "process_style_items [] items = Inr ps" and
    m1: "m1 = dict_set m ''styles'' (YDict ps)"
    by (auto simp: process_styles_def Let_def split: yval.splits sum.splits)
  have cl: "clean_items ps" using ps by (rule process_style_items_clean) (simp add: clean_items_def)
  have g: "py_get m1 ''styles'' (YDict []) = YDict ps"
    by (simp add: m1 py_get_def map_of_dict_set_same)
  have fx: "process_style_items [] ps = Inr ps"
    using process_style_items_fixed [OF cl, of "[]"] by simp
  have "dict_set m1 ''styles'' (YDict ps) = m1"
    by (rule dict_set_same) (simp add: m1 map_of_dict_set_same)
  with g fx show ?thesis by (simp add: process_styles_def Let_def)
qed

lemma process_style_items_total:
  "list_all (\<lambda>kv. is_str (snd kv)) items \<Longrightarrow> \<exists>r. process_style_items acc items = Inr r"
proof (induction items arbitrary: acc)
  case Nil
  then show ?case by simp
next
  case (Cons kv items)
  obtain k v where kv: "kv = (k, v)" by (cases kv)
  with Cons.prems obtain s where "v = YStr s" by (cases v) auto
  with Cons kv show ?case by simp
qed

lemma process_styles_total:
  assumes "style_values_strings m"
  shows "\<exists>m1. process_styles m = Inr m1"
proof (cases "py_get m ''styles'' (YDict [])")
  case (YDict items)
  with assms have "list_all (\<lambda>kv. is_str (snd kv)) items" by (simp add: style_values_strings_def)
  from process_style_items_total [OF this, of "[]"] YDict show ?thesis
    by (auto simp: process_styles_def)
qed (use assms in \<open>auto simp: style_values_strings_def\<close>)

text \<open>
  C9: style normalisation is idempotent.  Whenever \<^const>\<open>process_styles\<close> returns a
  manifest (its style values are then strings: stripped, whitespace runs collapsed, a
  final semicolon ensured), applying it to that manifest returns the same manifest;
  and it does return one for every manifest whose styles map names to strings.
\<close>

theorem process_styles_idempotent:
  "(process_styles m = Inr m1 \<longrightarrow> process_styles m1 = Inr m1)
   \<and> (style_values_strings m \<longrightarrow> (\<exists>m2. process_styles m = Inr m2))"
  using process_styles_idem [of m m1] process_styles_total [of m] by blast

theorem process_styles_idempotent_witness:
  "style_values_strings [(''styles'', YDict [(''box'', YStr ''  color:   red ''), (''empty'', YStr '' '')])]
   \<and> process_styles [(''styles'', YDict [(''box'', YStr ''  color:   red ''), (''empty'', YStr '' '')])]
     = Inr [(''styles'', YDict [(''box'', YStr ''color: red;''), (''empty'', YStr [])])]
   \<and> process_styles [(''styles'', YDict [(''box'', YStr ''color: red;''), (''empty'', YStr [])])]
     = Inr [(''styles'', YDict [(''box'', YStr ''color: red;''), (''empty'', YStr [])])]"
proof -
  have h: "process_styles [(''styles'', YDict [(''box'', YStr ''  color:   red ''), (''empty'', YStr '' '')])]
     = Inr [(''styles'', YDict [(''box'', YStr ''color: red;''), (''empty'', YStr [])])]"
    by code_simp
  have s: "style_values_strings [(''styles'', YDict [(''box'', YStr ''  color:   red ''), (''empty'', YStr '' '')])]"
    by code_simp
  from process_styles_idempotent
    [of "[(''styles'', YDict [(''box'', YStr ''  color:   red ''), (''empty'', YStr '' '')])]"
        "[(''styles'', YDict [(''box'', YStr ''color: red;''), (''empty'', YStr [])])]"] h s
  show ?thesis by blast
qed

section \<open>Variable substitution touches templates only\<close>





section \<open>Slot substitution without a matching slot\<close>




section \<open>Template inheritance: chains that end, and cycles\<close>




text \<open>
  The retry of the inner \<^verbatim>\<open>try\<close>: under an idle loop a loader that raises
  \<^verbatim>\<open>RuntimeError\<close> at its first call is called a second time.
\<close>

lemma load_parent_retry:
  "load_parent (flaky_loader [(''base.yaml'', manifest_base)]) (YStr ''base.yaml'') (LoopIdle, 0)
     = (Inr manifest_base, (NoLoop, 2))"
  by code_simp




section \<open>When the validator reports no error\<close>

lemma validate_style_items_Nil:
  "validate_style_items d errs = [] \<longleftrightarrow> errs = [] \<and> list_all (\<lambda>kv. is_str (snd kv)) d"
  by (induction d errs rule: validate_style_items.induct) auto

lemma validate_slot_names_Nil:
  "validate_slot_names ns errs = [] \<longleftrightarrow> errs = [] \<and> list_all match_identifier ns"
  by (induction ns arbitrary: errs) auto

lemma validate_metadata_Nil:
  "validate_metadata m errs = Inr r \<Longrightarrow>
   (r = [] \<longleftrightarrow> errs = [] \<and> title_nonempty m \<and> extends_nonblank m)"
proof (cases "py_get m ''metadata'' (YDict [])")
  case (YDict md)
  assume a: "validate_metadata m errs = Inr r"
  show ?thesis
  proof (cases "map_of md ''extends''")
    case None
    with a YDict show ?thesis
      by (auto simp: validate_metadata_def title_nonempty_def extends_nonblank_def Let_def split: if_splits)
  next
    case (Some ex)
    with a YDict show ?thesis
      by (cases ex) (auto simp: validate_metadata_def title_nonempty_def extends_nonblank_def Let_def split: if_splits)
  qed
qed (auto simp: validate_metadata_def)

lemma validate_styles_Nil:
  "validate_styles m errs = [] \<longleftrightarrow> errs = [] \<and> style_values_strings m"
  by (auto simp: validate_styles_def style_values_strings_def validate_style_items_Nil split: yval.splits)

lemma validate_structure_Nil:
  "validate_structure m errs = [] \<longleftrightarrow> errs = [] \<and> structure_nonempty m"
  by (auto simp: validate_structure_def structure_nonempty_def)

lemma validate_template_inheritance_Nil:
  "validate_template_inheritance m errs = Inr r \<Longrightarrow>
   (r = [] \<longleftrightarrow> errs = [] \<and> slot_names_identifiers m)"
  by (auto simp: validate_template_inheritance_def slot_names_identifiers_def Let_def
        validate_slot_names_Nil list_all_iff
        split: sum.splits yval.splits) force+

lemma validate_Nil:
  assumes "validate m = Inr errors"
  shows "errors = [] \<longleftrightarrow> schema_valid m \<and> title_nonempty m \<and> structure_nonempty m
     \<and> extends_nonblank m \<and> style_values_strings m \<and> slot_names_identifiers m"
proof -
  from assms obtain e1 where
    1: "validate_metadata m (if schema_valid m then [] else [''Schema validation failed'']) = Inr e1"
    and 2: "validate_template_inheritance m (validate_structure m (validate_styles m e1)) = Inr errors"
    by (auto simp: validate_def Let_def split: sum.splits)
  from validate_metadata_Nil [OF 1] validate_template_inheritance_Nil [OF 2]
  show ?thesis by (auto simp: validate_structure_Nil validate_styles_Nil)
qed

lemma validate_total:
  assumes "schema_valid m"
  shows "\<exists>errors. validate m = Inr errors"
proof -
  from assms obtain md where md: "py_get m ''metadata'' (YDict []) = YDict md"
    by (auto simp: schema_valid_def member_ok_def py_get_def split: option.splits
        elim: metadata_schema.elims)
  from assms have "is_object (py_get m ''template_slots'' (YDict []))"
    by (auto simp: schema_valid_def member_ok_def py_get_def split: option.splits
        elim: named_strings_schema.elims)
  then obtain slots where ts: "py_get m ''template_slots'' (YDict []) = YDict slots"
    by (cases "py_get m ''template_slots'' (YDict [])") auto
  have "\<exists>e1. validate_metadata m errs = Inr e1" for errs
  proof (cases "map_of md ''extends''")
    case None
    with md show ?thesis by (simp add: validate_metadata_def Let_def)
  next
    case (Some ex)
    with md show ?thesis by (cases ex) (simp_all add: validate_metadata_def Let_def)
  qed
  moreover have "\<exists>e2. validate_template_inheritance m errs = Inr e2" for errs
    using md ts by (simp add: validate_template_inheritance_def Let_def)
  ultimately show ?thesis
    by (simp add: validate_def Let_def split: sum.splits) (metis sum.distinct(1) sumE)
qed

text \<open>
  C2, as the code has it: whenever \<^verbatim>\<open>validate\<close> returns, its list of errors is empty
  if and only if the manifest passes the schema, \<^verbatim>\<open>metadata.title\<close> is non-empty,
  \<^verbatim>\<open>structure\<close> is non-empty, \<^verbatim>\<open>metadata.extends\<close> is absent or a string that is not
  blank, every style value is a string and every template slot name is an identifier;
  and on a manifest that passes the schema \<^verbatim>\<open>validate\<close> does return.
\<close>

theorem validate_no_errors_iff:
  "(validate manifest = Inr errors \<longrightarrow>
      (errors = [] \<longleftrightarrow>
         schema_valid manifest \<and> title_nonempty manifest \<and> structure_nonempty manifest
         \<and> extends_nonblank manifest \<and> style_values_strings manifest
         \<and> slot_names_identifiers manifest))
   \<and> (schema_valid manifest \<longrightarrow> (\<exists>errs. validate manifest = Inr errs))"
  using validate_Nil [of manifest errors] validate_total [of manifest] by blast

theorem validate_no_errors_iff_witness:
  "validate manifest_box = Inr [] \<and> schema_valid manifest_box \<and> title_nonempty manifest_box
   \<and> structure_nonempty manifest_box \<and> extends_nonblank manifest_box
   \<and> style_values_strings manifest_box \<and> slot_names_identifiers manifest_box"
proof -
  have v: "validate manifest_box = Inr []" by code_simp
  from validate_no_errors_iff [of manifest_box "[]"] v show ?thesis by blast
qed

text \<open>
  C2 fails as stated: a manifest of valid shape with a title and a structure, whose
  \<^verbatim>\<open>extends\<close> is a blank string, gets an error.
\<close>

theorem validate_title_structure_counterexample:
  "schema_valid manifest_blank_extends \<and> title_nonempty manifest_blank_extends
   \<and> structure_nonempty manifest_blank_extends
   \<and> validate manifest_blank_extends = Inr [extends_message]"
  by code_simp

section \<open>The HTML converter\<close>

text \<open>
  C3: whatever is raised inside \<^verbatim>\<open>convert\<close>, by the construction of the document or
  by the steps after it, leaves \<^verbatim>\<open>convert\<close> as a \<^verbatim>\<open>ConversionError\<close>; so does the
  \<^verbatim>\<open>AttributeError\<close> of a style value that is a list.
\<close>

theorem convert_raises_conversion_error:
  "convert self finish manifest = Inl e \<Longrightarrow> is_conversion_error e"
  by (auto simp: convert_def handle_conversion_error_def split: sum.splits)

theorem convert_raises_conversion_error_witness:
  "convert default_converter content_only manifest_list_style
     = Inl (ConversionError ''HTML conversion'' AttributeError)
   \<and> is_conversion_error (ConversionError ''HTML conversion'' AttributeError)"
proof -
  have h: "convert default_converter content_only manifest_list_style
     = Inl (ConversionError ''HTML conversion'' AttributeError)"
    by code_simp
  from convert_raises_conversion_error [OF h] h show ?thesis by simp
qed

text \<open>
  C7 does not hold of the code: a mapping node without any key has no first key, and
  \<^verbatim>\<open>next(iter(element.keys()))\<close> raises \<^verbatim>\<open>StopIteration\<close> where the tag should
  default to \<^verbatim>\<open>div\<close>.  The structure \<^verbatim>\<open>{div: {}}\<close> is not rendered, and \<^verbatim>\<open>convert\<close>
  fails on a manifest with it.
\<close>

theorem empty_element_not_rendered:
  "convert_element_to_html [] (YDict []) 2 = Inl StopIteration
   \<and> convert_structure_to_html (YDict [(''div'', YDict [])]) (YDict []) 1 = Inl StopIteration
   \<and> convert default_converter content_only manifest_empty_div
       = Inl (ConversionError ''HTML conversion'' StopIteration)"
  by code_simp

text \<open>
  C8 does not hold of the code: a style value that is no key of the styles becomes the
  \<^verbatim>\<open>style\<close> attribute as it is, with no escaping, while the attribute next to it is
  escaped; a style value that is a key of the styles becomes the class.
\<close>

theorem inline_style_not_escaped:
  \<open>convert_element_to_html
     [(''text'', YStr ''Hi''), (''style'', YStr ''font-family: "Arial"''),
      (''title'', YStr ''say "hi"'')] (YDict []) 1
     = Inr ''  <div style="font-family: "Arial"" title="say &quot;hi&quot;">Hi</div>''
   \<and> convert_element_to_html
     [(''text'', YStr ''Hi''), (''style'', YStr ''mainBox'')]
     (YDict [(''mainBox'', YStr ''color: red;'')]) 1
     = Inr ''  <div class="main-box">Hi</div>''\<close>
  by code_simp



section \<open>Void elements\<close>

lemma suffix_py_join_last: "suffix y (py_join sep (xs @ [y]))"
proof (induction sep xs rule: py_join.induct)
  case (1 sep)
  show ?case by simp
next
  case (2 sep x)
  show ?case by (simp add: suffix_def)
next
  case (3 sep x z rest)
  then show ?case by (simp add: suffix_append)
qed

lemma emit_element_closed:
  assumes "content \<noteq> []"
  shows "suffix (''</'' @ tag @ ''>'') (emit_element indent tag attr_str content)"
proof (cases "length content = 1 \<and> CHR 0x0A \<notin> set (hd content)")
  case True
  with assms show ?thesis by (auto simp: emit_element_def suffix_def)
next
  case False
  have "suffix (indent_str indent @ ''</'' @ tag @ ''>'')
          (py_join [CHR 0x0A]
             (([indent_str indent @ ''<'' @ tag @ attr_str @ ''>'']
               @ map (\<lambda>item. ''  '' @ indent_str indent @ item)
                   (filter (\<lambda>item. py_strip item \<noteq> []) content))
              @ [indent_str indent @ ''</'' @ tag @ ''>'']))"
    by (rule suffix_py_join_last)
  moreover have "suffix (''</'' @ tag @ ''>'') (indent_str indent @ ''</'' @ tag @ ''>'')"
    by (simp add: suffix_def)
  ultimately have "suffix (''</'' @ tag @ ''>'')
          (py_join [CHR 0x0A]
             (([indent_str indent @ ''<'' @ tag @ attr_str @ ''>'']
               @ map (\<lambda>item. ''  '' @ indent_str indent @ item)
                   (filter (\<lambda>item. py_strip item \<noteq> []) content))
              @ [indent_str indent @ ''</'' @ tag @ ''>'']))"
    by (rule suffix_order.trans [rotated])
  with assms False show ?thesis by (auto simp: emit_element_def)
qed

lemma plain_key_tag:
  "plain_key key v styles st = Inr st' \<Longrightarrow>
   fst st' = fst st \<and> (snd (snd st) \<noteq> [] \<longrightarrow> snd (snd st') \<noteq> [])"
  by (auto simp: plain_key_def add_content_def split: key_kind.splits sum.splits)

lemma scan_element_tag_content:
  "scan_element items styles indent st = Inr st' \<Longrightarrow>
   (fst st \<noteq> None \<longrightarrow> snd (snd st) \<noteq> []) \<Longrightarrow>
   (fst st' \<noteq> None \<longrightarrow> snd (snd st') \<noteq> [])"
proof (induction items arbitrary: st)
  case Nil
  then show ?case by simp
next
  case (Cons kv items)
  obtain key v where kv: "kv = (key, v)" by (cases kv)
  show ?case
  proof (cases "key_kind key")
    case ChildrenKey
    with Cons.prems(1) kv obtain hs where
      "scan_element items styles indent (add_content st hs) = Inr st'"
      by (auto split: sum.splits)
    moreover have "fst (add_content st hs) \<noteq> None \<longrightarrow> snd (snd (add_content st hs)) \<noteq> []"
      using Cons.prems(2) by (simp add: add_content_def)
    ultimately show ?thesis by (rule Cons.IH)
  next
    case ElementKey
    with Cons.prems(1) kv obtain h where
      "scan_element items styles indent (set_tag_name key (add_content st [h])) = Inr st'"
      by (auto split: sum.splits)
    moreover have "fst (set_tag_name key (add_content st [h])) \<noteq> None \<longrightarrow>
        snd (snd (set_tag_name key (add_content st [h]))) \<noteq> []"
      by (simp add: add_content_def set_tag_name_def)
    ultimately show ?thesis by (rule Cons.IH)
  next
    case TextKey
    with Cons.prems(1) kv obtain st1 where
      1: "plain_key key v styles st = Inr st1" and 2: "scan_element items styles indent st1 = Inr st'"
      by (auto split: sum.splits)
    from plain_key_tag [OF 1] Cons.prems(2) have "fst st1 \<noteq> None \<longrightarrow> snd (snd st1) \<noteq> []" by simp
    with 2 show ?thesis by (rule Cons.IH)
  next
    case StyleKey
    with Cons.prems(1) kv obtain st1 where
      1: "plain_key key v styles st = Inr st1" and 2: "scan_element items styles indent st1 = Inr st'"
      by (auto split: sum.splits)
    from plain_key_tag [OF 1] Cons.prems(2) have "fst st1 \<noteq> None \<longrightarrow> snd (snd st1) \<noteq> []" by simp
    with 2 show ?thesis by (rule Cons.IH)
  next
    case AttributeKey
    with Cons.prems(1) kv obtain st1 where
      1: "plain_key key v styles st = Inr st1" and 2: "scan_element items styles indent st1 = Inr st'"
      by (auto split: sum.splits)
    from plain_key_tag [OF 1] Cons.prems(2) have "fst st1 \<noteq> None \<longrightarrow> snd (snd st1) \<noteq> []" by simp
    with 2 show ?thesis by (rule Cons.IH)
  next
    case OtherKey
    with Cons.prems(1) kv obtain st1 where
      1: "plain_key key v styles st = Inr st1" and 2: "scan_element items styles indent st1 = Inr st'"
      by (auto split: sum.splits)
    from plain_key_tag [OF 1] Cons.prems(2) have "fst st1 \<noteq> None \<longrightarrow> snd (snd st1) \<noteq> []" by simp
    with 2 show ?thesis by (rule Cons.IH)
  qed
qed

lemma scan_element_no_tag:
  "scan_element items styles indent st = Inr st' \<Longrightarrow> fst st' = None \<Longrightarrow>
   fst st = None \<and> (\<forall>kv \<in> set items. key_kind (fst kv) \<noteq> ElementKey)"
proof (induction items arbitrary: st)
  case Nil
  then show ?case by simp
next
  case (Cons kv items)
  obtain key v where kv: "kv = (key, v)" by (cases kv)
  show ?case
  proof (cases "key_kind key = ElementKey")
    case True
    with Cons.prems(1) kv obtain h where
      "scan_element items styles indent (set_tag_name key (add_content st [h])) = Inr st'"
      by (auto split: sum.splits)
    from Cons.IH [OF this Cons.prems(2)] show ?thesis by (simp add: set_tag_name_def)
  next
    case False
    with Cons.prems(1) kv obtain st1 where
      1: "fst st1 = fst st" and 2: "scan_element items styles indent st1 = Inr st'"
      by (cases "key_kind key") (auto simp: add_content_def split: sum.splits dest: plain_key_tag)
    from Cons.IH [OF 2 Cons.prems(2)] 1 False kv show ?thesis by simp
  qed
qed

lemma void_key_is_element:
  assumes "key \<in> set void_elements"
  shows "key_kind key = ElementKey"
proof -
  have k: "key_kind ''img'' = ElementKey" "key_kind ''br'' = ElementKey"
    "key_kind ''hr'' = ElementKey" "key_kind ''input'' = ElementKey"
    "key_kind ''meta'' = ElementKey" "key_kind ''link'' = ElementKey"
    by code_simp+
  from assms have "key = ''img'' \<or> key = ''br'' \<or> key = ''hr'' \<or> key = ''input''
      \<or> key = ''meta'' \<or> key = ''link''"
    by (simp only: void_elements_def set_simps insert_iff empty_iff) blast
  with k show ?thesis by blast
qed

lemma div_not_void: "''div'' \<notin> set void_elements"
  by code_simp

text \<open>
  \<^verbatim>\<open>_convert_element_to_html\<close> has a branch that writes a void element (\<^verbatim>\<open>img\<close>,
  \<^verbatim>\<open>br\<close>, \<^verbatim>\<open>hr\<close>, \<^verbatim>\<open>input\<close>, \<^verbatim>\<open>meta\<close>, \<^verbatim>\<open>link\<close>) without closing tag, under
  the test that no content was collected.  The branch is never taken: a void tag is
  named by a key of the node, and the value of that key is always appended to the
  content.
\<close>

lemma void_branch_never_taken:
  assumes "convert_element_to_html element styles indent = Inr html"
  shows "\<exists>tag attr_str content.
           html = emit_element indent tag attr_str content
           \<and> (tag \<in> set void_elements \<longrightarrow>
                content \<noteq> [] \<and> suffix (''</'' @ tag @ ''>'') html)"
proof -
  from assms obtain st tag where
    sc: "scan_element element styles indent (None, [], []) = Inr st" and
    rt: "resolve_tag element (fst st) = Inr tag" and
    html: "html = emit_element indent tag (format_attributes (fst (snd st))) (snd (snd st))"
    by (auto split: sum.splits)
  have "snd (snd st) \<noteq> []" if void: "tag \<in> set void_elements"
  proof (cases "fst st")
    case (Some t)
    with scan_element_tag_content [OF sc] show ?thesis by simp
  next
    case None
    with rt obtain first_key v rest where
      el: "element = (first_key, v) # rest" and
      tag: "tag = (if is_html_element first_key then first_key else ''div'')"
      by (auto simp: resolve_tag_def split: list.splits)
    from scan_element_no_tag [OF sc None] el have "key_kind first_key \<noteq> ElementKey" by simp
    with void tag void_key_is_element [of first_key] div_not_void show ?thesis
      by (auto split: if_splits)
  qed
  with html emit_element_closed show ?thesis by blast
qed

text \<open>
  C6 does not hold of the code: an \<^verbatim>\<open>img\<close> node that carries text and children is
  written with them and with a closing tag, and even a \<^verbatim>\<open>br\<close> whose value is the
  empty string is written as \<^verbatim>\<open><br></br>\<close>.
\<close>

theorem void_element_written_with_content:
  "convert_element_to_html [(''img'', YStr ''x'')] (YDict []) 1 = Inr ''  <img>x</img>''
   \<and> convert_element_to_html
        [(''img'', YStr ''a.png''), (''text'', YStr ''caption''), (''children'', YList [YStr ''more''])]
        (YDict []) 1
       = Inr (py_join [CHR 0x0A]
               [''  <img>'', ''    a.png'', ''    caption'', ''    more'', ''  </img>''])
   \<and> convert_element_to_html [(''br'', YStr [])] (YDict []) 1 = Inr ''  <br></br>''"
  by code_simp

end
